theory Spec2Isabelle
  imports Main
begin

section \<open>Python values\<close>

text \<open>
  The variable \<open>articles\<close> of \<open>analyze_government_news\<close> holds either the list of
  dictionaries built from the live feeds or whatever \<open>json.load\<close> returns for the cache
  file, so it is modelled as an untyped value. JSON numbers are restricted to integers;
  a dictionary is an association list with distinct keys. A string is given by its UTF-8
  encoding (\<open>PStr\<close>); a string that holds a lone surrogate has no such encoding and is
  given by its code points (\<open>PSurrogate\<close>): \<open>json.load\<close> builds one from an escape such
  as \<open>\ud800\<close>. The keys of a dictionary are taken to be strings of the first kind.
\<close>

datatype pyval =
    PNone
  | PBool bool
  | PInt int
  | PStr string
  | PSurrogate "nat list"
  | PList "pyval list"
  | PDict "(string \<times> pyval) list"

datatype exn =
  ValueError | OverflowError | JSONDecodeError | UnicodeEncodeError | TypeError | KeyError

text \<open>Truth value testing, as in \<open>if not articles\<close>.\<close>

fun truthy :: "pyval \<Rightarrow> bool" where
  "truthy PNone = False"
| "truthy (PBool b) = b"
| "truthy (PInt n) = (n \<noteq> 0)"
| "truthy (PStr s) = (s \<noteq> [])"
| "truthy (PSurrogate cs) = (cs \<noteq> [])"
| "truthy (PList xs) = (xs \<noteq> [])"
| "truthy (PDict kvs) = (kvs \<noteq> [])"

text \<open>
  Subscription with a string key, as in \<open>art['title']\<close>: a dictionary without the key
  raises KeyError, every other value raises TypeError.
\<close>

fun getitem :: "pyval \<Rightarrow> string \<Rightarrow> exn + pyval" where
  "getitem (PDict kvs) k = (case map_of kvs k of None \<Rightarrow> Inl KeyError | Some v \<Rightarrow> Inr v)"
| "getitem PNone k = Inl TypeError"
| "getitem (PBool b) k = Inl TypeError"
| "getitem (PInt n) k = Inl TypeError"
| "getitem (PStr s) k = Inl TypeError"
| "getitem (PSurrogate cs) k = Inl TypeError"
| "getitem (PList xs) k = Inl TypeError"

text \<open>
  The elements a \<open>for\<close> loop visits: the items of a list, the keys of a dictionary, the
  characters of a string (each a string again, which is all the loop body depends on);
  the other values are not iterable.
\<close>

fun iterate :: "pyval \<Rightarrow> exn + pyval list" where
  "iterate (PList xs) = Inr xs"
| "iterate (PDict kvs) = Inr (map (\<lambda>kv. PStr (fst kv)) kvs)"
| "iterate (PStr s) = Inr (map (\<lambda>c. PStr [c]) s)"
| "iterate (PSurrogate cs) = Inr (map (\<lambda>c. PSurrogate [c]) cs)"
| "iterate PNone = Inl TypeError"
| "iterate (PBool b) = Inl TypeError"
| "iterate (PInt n) = Inl TypeError"

text \<open>
  What \<open>json.dump(articles, f, ensure_ascii=False)\<close> can write to a file opened with the
  encoding UTF-8: every string inside the value must have a UTF-8 encoding.
\<close>

fun encodable :: "pyval \<Rightarrow> bool" where
  "encodable PNone = True"
| "encodable (PBool b) = True"
| "encodable (PInt n) = True"
| "encodable (PStr s) = True"
| "encodable (PSurrogate cs) = False"
| "encodable (PList xs) = list_all encodable xs"
| "encodable (PDict kvs) = list_all encodable (map snd kvs)"

section \<open>The network and the feed parser\<close>

text \<open>
  One feed entry is read only through \<open>entry.get(key, default)\<close>: \<open>e k\<close> is the text
  the entry holds for the key \<open>k\<close>, if any.
  What \<open>feedparser.parse\<close> returns is a non-empty dictionary (malformed content gives a
  feed without entries), so the \<open>feed\<close> in \<open>if feed and feed.entries\<close> is true whenever
  \<open>fetch_feed\<close> returned one. The call may also raise.
\<close>

type_synonym entry = "string \<rightharpoonup> string"

record FeedParserDict =
  entries :: "entry list"

text \<open>
  The outcome of one \<open>requests.get\<close>: a response with its status code and content, or
  one of the two exception classes \<open>fetch_feed\<close> catches.
\<close>

datatype http_outcome = Response nat string | SSLError | RequestError

datatype parse_outcome = Parsed FeedParserDict | ParseRaises

text \<open>
  \<open>requests_get net url k\<close> is the outcome of the \<open>k\<close>-th request for \<open>url\<close> during one
  run (counted from 0).
\<close>

record network =
  requests_get :: "string \<Rightarrow> nat \<Rightarrow> http_outcome"
  feedparser_parse :: "string \<Rightarrow> parse_outcome"

datatype event = HttpGet string | Sleep int

section \<open>fetch_feed\<close>

text \<open>
  The \<open>try\<close> statement of one attempt: the parsed feed on status 200. Any other
  status, an exception of the request and an exception of \<open>feedparser.parse\<close>, which is
  called inside the \<open>try\<close>, only print and fall through to the wait.
\<close>

definition try_get :: "network \<Rightarrow> string \<Rightarrow> nat \<Rightarrow> FeedParserDict option" where
  "try_get net url attempt =
     (case requests_get net url attempt of
        Response status_code content \<Rightarrow>
          if status_code = 200
          then (case feedparser_parse net content of
                  Parsed feed \<Rightarrow> Some feed
                | ParseRaises \<Rightarrow> None)
          else None
      | SSLError \<Rightarrow> None
      | RequestError \<Rightarrow> None)"

text \<open>
  \<open>time.sleep(delay)\<close>: a negative delay raises ValueError, a delay too large for the
  clock (more than \<open>2^63 - 1\<close> nanoseconds) raises OverflowError.
\<close>

definition sleep :: "int \<Rightarrow> exn option" where
  "sleep delay =
     (if delay < 0 then Some ValueError
      else if 9223372037 \<le> delay then Some OverflowError
      else None)"

text \<open>
  The loop \<open>for attempt in range(retries)\<close>, with the number of attempts still to make
  as the recursion argument. \<open>time.sleep(delay)\<close> stands after the \<open>try\<close> statement, so
  it runs after every failed attempt, the last one included, and an exception it raises
  is not caught. The first component of the result is the sequence of requests and waits
  performed.
\<close>

fun attempts :: "network \<Rightarrow> string \<Rightarrow> int \<Rightarrow> nat \<Rightarrow> nat \<Rightarrow>
    event list \<times> (exn + FeedParserDict option)" where
  "attempts net url delay attempt 0 = ([], Inr None)"
| "attempts net url delay attempt (Suc n) =
     (case try_get net url attempt of
        Some feed \<Rightarrow> ([HttpGet url], Inr (Some feed))
      | None \<Rightarrow>
          (case sleep delay of
             Some e \<Rightarrow> ([HttpGet url], Inl e)
           | None \<Rightarrow>
               (case attempts net url delay (Suc attempt) n of
                  (tr, r) \<Rightarrow> (HttpGet url # Sleep delay # tr, r))))"

definition fetch_feed :: "network \<Rightarrow> string \<Rightarrow> int \<Rightarrow> int \<Rightarrow>
    event list \<times> (exn + FeedParserDict option)" where
  "fetch_feed net url retries delay = attempts net url delay 0 (nat retries)"

section \<open>analyze_government_news: collecting the articles\<close>

definition feeds :: "string list" where
  "feeds =
     [''https://www.standardmedia.co.ke/kenya/rss.xml'',
      ''https://rss.nation.africa/rss.xml'',
      ''https://www.theeastafrican.co.ke/rss.xml'',
      ''https://www.kbc.co.ke/feed/'',
      ''https://www.msn.com/en-xl/feeds/news'',
      ''https://allafrica.com/tools/headlines/rdf/kenya/headlines.rdf'',
      ''https://www.bbc.co.uk/feeds/rss/africa.xml'',
      ''https://www.aljazeera.com/xml/rss/all.xml'']"

text \<open>\<open>entry.get(key, default)\<close>.\<close>

definition get_or :: "entry \<Rightarrow> string \<Rightarrow> string \<Rightarrow> string" where
  "get_or e k d = (case e k of None \<Rightarrow> d | Some v \<Rightarrow> v)"

text \<open>The dictionary appended for one entry.\<close>

definition article_of :: "entry \<Rightarrow> pyval" where
  "article_of e =
     PDict [(''title'', PStr (get_or e ''title'' ''Untitled'')),
            (''link'', PStr (get_or e ''link'' ''No link'')),
            (''summary'', PStr (get_or e ''summary''
                (get_or e ''description'' ''No summary available.'')))]"

text \<open>The inner loop \<open>for entry in feed.entries[:5]\<close>, appending to \<open>articles\<close>.\<close>

fun append_entries :: "entry list \<Rightarrow> pyval list \<Rightarrow> pyval list" where
  "append_entries [] articles = articles"
| "append_entries (e # es) articles = append_entries es (articles @ [article_of e])"

text \<open>The outer loop \<open>for url in feeds\<close>, with the default retries 3 and delay 5.\<close>

fun collect :: "network \<Rightarrow> string list \<Rightarrow> pyval list \<Rightarrow> exn + pyval list" where
  "collect net [] articles = Inr articles"
| "collect net (url # urls) articles =
     (case snd (fetch_feed net url 3 5) of
        Inl e \<Rightarrow> Inl e
      | Inr None \<Rightarrow> collect net urls articles
      | Inr (Some feed) \<Rightarrow>
          if entries feed \<noteq> []
          then collect net urls (append_entries (take 5 (entries feed)) articles)
          else collect net urls articles)"

section \<open>analyze_government_news: cache and placeholder\<close>

text \<open>
  The cache file \<open>cache/news_cache.json\<close>: it does not exist, or it exists and
  \<open>json.load\<close> raises on it, or it exists and holds a JSON value. \<open>json.dump\<close> followed
  by \<open>json.load\<close> gives the value back, so a write is modelled by the value stored.
\<close>

datatype cache_file = Absent | Corrupt | Stored pyval

record disk =
  news_cache :: cache_file

definition fallback_article :: pyval where
  "fallback_article =
     PDict [(''title'', PStr ''Government launches new affordable housing project''),
            (''link'', PStr ''https://example.com/fallback''),
            (''summary'', PStr (''The Kenyan government has announced a new affordable housing project '' @
                ''aimed at urban youth and low-income families.''))]"

text \<open>
  Lines 83 to 86: the cache is read only when the live articles are empty and the file
  exists; the read is not inside any \<open>try\<close>.
\<close>

definition use_cache :: "disk \<Rightarrow> pyval \<Rightarrow> exn + pyval" where
  "use_cache d articles =
     (if \<not> truthy articles \<and> news_cache d \<noteq> Absent
      then (case news_cache d of
              Stored v \<Rightarrow> Inr v
            | Corrupt \<Rightarrow> Inl JSONDecodeError
            | Absent \<Rightarrow> Inr articles)
      else Inr articles)"

text \<open>Lines 88 to 97.\<close>

definition use_fallback :: "pyval \<Rightarrow> pyval" where
  "use_fallback articles = (if \<not> truthy articles then PList [fallback_article] else articles)"

text \<open>
  Lines 59 to 100 of \<open>analyze_government_news\<close>, the part the specification calls
  \<open>aggregate\<close>: it returns the value of \<open>articles\<close> after the cache file has been
  written, together with the new state of the disk. The write of lines 99 to 100 is not
  inside any \<open>try\<close>: on a value that holds a string without UTF-8 encoding it raises
  UnicodeEncodeError (and leaves a truncated file; the disk after an exception is not
  part of the result).
\<close>

definition aggregate :: "network \<Rightarrow> disk \<Rightarrow> exn + (pyval \<times> disk)" where
  "aggregate net d =
     (case collect net feeds [] of
        Inl e \<Rightarrow> Inl e
      | Inr live \<Rightarrow>
          (case use_cache d (PList (take 15 live)) of
             Inl e \<Rightarrow> Inl e
           | Inr cached \<Rightarrow>
               (let articles = use_fallback cached
                in if encodable articles
                   then Inr (articles, d\<lparr>news_cache := Stored articles\<rparr>)
                   else Inl UnicodeEncodeError)))"

section \<open>analyze_government_news: the analysis loop\<close>

text \<open>
  One call of \<open>client.models.generate_content\<close>: a response whose \<open>text\<close> attribute is
  a string or missing, or an exception with its message.
\<close>

datatype ai_outcome = Completion "string option" | Failure string

text \<open>
  The prompt is a fixed template around the title, the summary and the link of the
  article, read in this order; it is represented by these three values. The model is
  asked once per article: \<open>ai i p\<close> is the outcome of the \<open>i\<close>-th call, with prompt \<open>p\<close>.
\<close>

type_synonym prompt = "pyval \<times> pyval \<times> pyval"

record analysis_item =
  title :: pyval
  analysis :: string
  source :: pyval

record report =
  status :: string
  timestamp :: string
  analyses :: "analysis_item list"

text \<open>The warning sign U+26A0 U+FE0F that starts the messages, in UTF-8.\<close>

definition warning_sign :: string where
  "warning_sign = [CHR 0xE2, CHR 0x9A, CHR 0xA0, CHR 0xEF, CHR 0xB8, CHR 0x8F]"

text \<open>The \<open>try\<close> statement of the loop body: the text of the analysis.\<close>

definition ai_text :: "ai_outcome \<Rightarrow> string" where
  "ai_text out =
     (case out of
        Completion (Some t) \<Rightarrow> if t \<noteq> [] then t else warning_sign @ '' No analysis generated.''
      | Completion None \<Rightarrow> warning_sign @ '' No analysis generated.''
      | Failure msg \<Rightarrow> warning_sign @ '' AI generation error: '' @ msg)"

text \<open>
  The loop \<open>for art in articles\<close>. The prompt is built before the \<open>try\<close> statement, so
  a KeyError or TypeError of a subscription leaves the function.
\<close>

fun analyse :: "(nat \<Rightarrow> prompt \<Rightarrow> ai_outcome) \<Rightarrow> nat \<Rightarrow> pyval list \<Rightarrow>
    analysis_item list \<Rightarrow> exn + analysis_item list" where
  "analyse ai i [] acc = Inr acc"
| "analyse ai i (art # arts) acc =
     (case getitem art ''title'' of
        Inl e \<Rightarrow> Inl e
      | Inr t \<Rightarrow>
          (case getitem art ''summary'' of
             Inl e \<Rightarrow> Inl e
           | Inr s \<Rightarrow>
               (case getitem art ''link'' of
                  Inl e \<Rightarrow> Inl e
                | Inr l \<Rightarrow>
                    analyse ai (Suc i) arts
                      (acc @ [\<lparr>title = t, analysis = ai_text (ai i (t, s, l)), source = l\<rparr>]))))"

definition analyze_government_news ::
    "network \<Rightarrow> (nat \<Rightarrow> prompt \<Rightarrow> ai_outcome) \<Rightarrow> string \<Rightarrow> disk \<Rightarrow> exn + (report \<times> disk)" where
  "analyze_government_news net ai now d =
     (case aggregate net d of
        Inl e \<Rightarrow> Inl e
      | Inr (articles, d') \<Rightarrow>
          (case iterate articles of
             Inl e \<Rightarrow> Inl e
           | Inr arts \<Rightarrow>
               (case analyse ai 0 arts [] of
                  Inl e \<Rightarrow> Inl e
                | Inr res \<Rightarrow>
                    Inr (\<lparr>status = ''success'', timestamp = now, analyses = res\<rparr>, d'))))"

section \<open>Notions used in the statements\<close>


text \<open>
  A failed attempt, in terms of what the network and the parser do: the request raises,
  or it is answered with a status other than 200, or it is answered with status 200 and
  the parser raises on the content.
\<close>

definition attempt_fails :: "network \<Rightarrow> string \<Rightarrow> nat \<Rightarrow> bool" where
  "attempt_fails net url k =
     (case requests_get net url k of
        Response status_code content \<Rightarrow>
          (if status_code = 200 then feedparser_parse net content = ParseRaises else True)
      | SSLError \<Rightarrow> True
      | RequestError \<Rightarrow> True)"

text \<open>The requests number 0 to \<open>n - 1\<close> for \<open>url\<close> all fail.\<close>

definition always_fails :: "network \<Rightarrow> string \<Rightarrow> nat \<Rightarrow> bool" where
  "always_fails net url n = list_all (attempt_fails net url) [0..<n]"

text \<open>
  The entries a source yields in \<open>analyze_government_news\<close>: those of the feed
  \<open>fetch_feed(url)\<close> returns, none when it returns None.
\<close>

definition fetched_entries :: "network \<Rightarrow> string \<Rightarrow> entry list" where
  "fetched_entries net url =
     (case snd (fetch_feed net url 3 5) of
        Inr (Some feed) \<Rightarrow> entries feed
      | Inr None \<Rightarrow> []
      | Inl e \<Rightarrow> [])"

text \<open>The articles of the first at most five entries of a source.\<close>

definition per_source :: "network \<Rightarrow> string \<Rightarrow> pyval list" where
  "per_source net url = map article_of (take 5 (fetched_entries net url))"

text \<open>No source yields an entry: the live articles are empty.\<close>

definition live_empty :: "network \<Rightarrow> bool" where
  "live_empty net = list_all (\<lambda>url. fetched_entries net url = []) feeds"

text \<open>A dictionary with exactly the keys title, link and summary, in this order, each a string.\<close>

fun populated :: "pyval \<Rightarrow> bool" where
  "populated (PDict [(k1, PStr t), (k2, PStr l), (k3, PStr s)]) =
     (k1 = ''title'' \<and> k2 = ''link'' \<and> k3 = ''summary'')"
| "populated v = False"



text \<open>A dictionary that has the three keys the analysis loop reads.\<close>

fun is_article :: "pyval \<Rightarrow> bool" where
  "is_article (PDict kvs) =
     (map_of kvs ''title'' \<noteq> None \<and> map_of kvs ''summary'' \<noteq> None \<and> map_of kvs ''link'' \<noteq> None)"
| "is_article v = False"

text \<open>The cache file, where it holds a JSON value, holds an array.\<close>

fun holds_array :: "cache_file \<Rightarrow> bool" where
  "holds_array (Stored (PList xs)) = True"
| "holds_array (Stored v) = False"
| "holds_array Absent = True"
| "holds_array Corrupt = True"

text \<open>The value of a key of an article (None where the subscription raises).\<close>

definition field :: "pyval \<Rightarrow> string \<Rightarrow> pyval" where
  "field art k = (case getitem art k of Inr v \<Rightarrow> v | Inl e \<Rightarrow> PNone)"

text \<open>The three values the prompt of an article is built from.\<close>

definition prompt_of :: "pyval \<Rightarrow> prompt" where
  "prompt_of art = (field art ''title'', field art ''summary'', field art ''link'')"

text \<open>The result expected for the article analysed by the \<open>i\<close>-th call of the model.\<close>

definition analysis_of :: "(nat \<Rightarrow> prompt \<Rightarrow> ai_outcome) \<Rightarrow> nat \<Rightarrow> pyval \<Rightarrow> analysis_item" where
  "analysis_of ai i art =
     \<lparr>title = field art ''title'',
      analysis = ai_text (ai i (prompt_of art)),
      source = field art ''link''\<rparr>"

section \<open>Scenarios\<close>

text \<open>Every request raises.\<close>

definition net_down :: network where
  "net_down = \<lparr>requests_get = (\<lambda>url k. RequestError),
               feedparser_parse = (\<lambda>content. Parsed \<lparr>entries = []\<rparr>)\<rparr>"




text \<open>
  The first source has three entries, the third has twenty, the others are unreachable.
\<close>

definition entry_a :: entry where
  "entry_a = [''title'' \<mapsto> ''A'', ''link'' \<mapsto> ''https://a.example/1'', ''summary'' \<mapsto> ''first'']"

definition entry_c :: entry where
  "entry_c = [''link'' \<mapsto> ''https://c.example/1'', ''description'' \<mapsto> ''third'']"

definition net_partial :: network where
  "net_partial =
     \<lparr>requests_get = (\<lambda>url k.
          if url = ''https://www.standardmedia.co.ke/kenya/rss.xml'' then Response 200 ''A''
          else if url = ''https://www.theeastafrican.co.ke/rss.xml'' then Response 200 ''C''
          else RequestError),
      feedparser_parse = (\<lambda>content.
          if content = ''A'' then Parsed \<lparr>entries = replicate 3 entry_a\<rparr>
          else Parsed \<lparr>entries = replicate 20 entry_c\<rparr>)\<rparr>"

text \<open>
  The first source has the three entries A1 to A3, the second is unreachable, the third
  has the twenty entries C01 to C20, the fourth is answered with content the parser
  raises on, the fifth is answered with such content at the first request and with a
  feed of the one entry G1 at the later ones, the others are unreachable. The entries
  have a title only.
\<close>

definition titled :: "string \<Rightarrow> entry" where
  "titled t = [''title'' \<mapsto> t]"

definition plain_article :: "string \<Rightarrow> pyval" where
  "plain_article t =
     PDict [(''title'', PStr t), (''link'', PStr ''No link''),
            (''summary'', PStr ''No summary available.'')]"

definition net_ordered :: network where
  "net_ordered =
     \<lparr>requests_get = (\<lambda>url k.
          if url = ''https://www.standardmedia.co.ke/kenya/rss.xml'' then Response 200 ''A''
          else if url = ''https://www.theeastafrican.co.ke/rss.xml'' then Response 200 ''C''
          else if url = ''https://www.kbc.co.ke/feed/'' then Response 200 ''<bad''
          else if url = ''https://www.msn.com/en-xl/feeds/news'' then
            (if k = 0 then Response 200 ''<bad'' else Response 200 ''G'')
          else RequestError),
      feedparser_parse = (\<lambda>content.
          if content = ''A'' then Parsed \<lparr>entries = map titled [''A1'', ''A2'', ''A3'']\<rparr>
          else if content = ''G'' then Parsed \<lparr>entries = [titled ''G1'']\<rparr>
          else if content = ''C'' then
            Parsed \<lparr>entries = map titled
              [''C01'', ''C02'', ''C03'', ''C04'', ''C05'', ''C06'', ''C07'', ''C08'', ''C09'', ''C10'',
               ''C11'', ''C12'', ''C13'', ''C14'', ''C15'', ''C16'', ''C17'', ''C18'', ''C19'', ''C20'']\<rparr>
          else ParseRaises)\<rparr>"

text \<open>The model answers every call but the second, which raises.\<close>

definition ai_second_fails :: "nat \<Rightarrow> prompt \<Rightarrow> ai_outcome" where
  "ai_second_fails i p = (if i = 1 then Failure ''503 UNAVAILABLE'' else Completion (Some ''ok''))"

text \<open>A cache record of four articles.\<close>

definition four_articles :: pyval where
  "four_articles =
     PList [article_of entry_a, article_of entry_c, article_of entry_a, article_of Map.empty]"

text \<open>
  A cache record of one article whose title holds a lone surrogate, as \<open>json.load\<close>
  reads it from \<open>[{"title": "\ud800", "link": "l", "summary": "s"}]\<close>.
\<close>

definition surrogate_batch :: pyval where
  "surrogate_batch =
     PList [PDict [(''title'', PSurrogate [0xD800]), (''link'', PStr ''l''), (''summary'', PStr ''s'')]]"


section \<open>fetch_feed: attempts, waits and result\<close>


lemma attempt_fails_iff: "attempt_fails net url k \<longleftrightarrow> try_get net url k = None"
  by (simp add: attempt_fails_def try_get_def split: http_outcome.splits parse_outcome.splits)




lemma always_fails_nth: "always_fails net url n \<Longrightarrow> k < n \<Longrightarrow> try_get net url k = None"
  by (simp add: always_fails_def list_all_iff attempt_fails_iff)

lemma attempts_no_error: "sleep delay = None \<Longrightarrow> snd (attempts net url delay a n) \<noteq> Inl e"
proof (induction n arbitrary: a)
  case 0
  then show ?case by simp
next
  case (Suc n)
  from Suc.IH [OF Suc.prems, of "Suc a"] Suc.prems show ?case
    by (cases "attempts net url delay (Suc a) n") (auto split: option.splits)
qed

lemma sleep_default: "sleep 5 = None"
  by (simp add: sleep_def)

lemma fetch_feed_default_no_error: "snd (fetch_feed net url 3 5) \<noteq> Inl e"
  by (simp add: fetch_feed_def attempts_no_error sleep_default)

lemma fetch_feed_default:
  "snd (fetch_feed net url 3 5) =
     Inr (case try_get net url 0 of
            Some feed \<Rightarrow> Some feed
          | None \<Rightarrow> (case try_get net url 1 of
                       Some feed \<Rightarrow> Some feed
                     | None \<Rightarrow> try_get net url 2))"
proof -
  have n: "nat 3 = Suc (Suc (Suc 0))" and t: "(2::nat) = Suc (Suc 0)"
    by simp_all
  show ?thesis
    unfolding fetch_feed_def n t
    by (simp add: sleep_default split: option.splits prod.splits)
qed

section \<open>The live articles\<close>

lemma append_entries_eq: "append_entries es articles = articles @ map article_of es"
  by (induction es arbitrary: articles) auto

lemma collect_step:
  "collect net (url # urls) articles = collect net urls (articles @ per_source net url)"
proof (cases "snd (fetch_feed net url 3 5)")
  case (Inl e)
  then show ?thesis using fetch_feed_default_no_error [of net url e] by simp
next
  case (Inr r)
  then show ?thesis
    by (cases r) (simp_all add: per_source_def fetched_entries_def append_entries_eq)
qed

lemma collect_eq:
  "collect net urls articles = Inr (articles @ concat (map (per_source net) urls))"
proof (induction urls arbitrary: articles)
  case Nil
  then show ?case by simp
next
  case (Cons url urls)
  show ?case unfolding collect_step Cons.IH by simp
qed

lemma length_per_source: "length (per_source net url) = min 5 (length (fetched_entries net url))"
  by (simp add: per_source_def min.commute)

lemma length_concat_per_source:
  "length (concat (map (per_source net) urls)) =
   sum_list (map (\<lambda>url. min 5 (length (fetched_entries net url))) urls)"
  by (induction urls) (simp_all add: length_per_source)

lemma always_fails_fetched:
  assumes "always_fails net url 3"
  shows "fetched_entries net url = []"
proof -
  have "try_get net url 0 = None" "try_get net url 1 = None" "try_get net url 2 = None"
    using always_fails_nth [OF assms] by simp_all
  then show ?thesis
    by (simp add: fetched_entries_def fetch_feed_default)
qed

lemma first_ok_fetched:
  assumes "k < 3" and "always_fails net url k"
    and "requests_get net url k = Response 200 content"
    and "feedparser_parse net content = Parsed feed"
  shows "fetched_entries net url = entries feed"
proof -
  have ok: "try_get net url k = Some feed"
    using assms(3,4) by (simp add: try_get_def)
  have before: "\<And>j. j < k \<Longrightarrow> try_get net url j = None"
    using always_fails_nth [OF assms(2)] by simp
  from assms(1) consider "k = 0" | "k = 1" | "k = 2"
    by linarith
  then show ?thesis
  proof cases
    case 1
    with ok show ?thesis by (simp add: fetched_entries_def fetch_feed_default)
  next
    case 2
    with ok before [of 0] show ?thesis by (simp add: fetched_entries_def fetch_feed_default)
  next
    case 3
    with ok before [of 0] before [of 1] show ?thesis
      by (simp add: fetched_entries_def fetch_feed_default)
  qed
qed

section \<open>The aggregation\<close>

lemma encodable_article_of: "encodable (article_of e)"
  by (simp add: article_of_def)

lemma encodable_fallback: "encodable (PList [fallback_article])"
  by (simp add: fallback_article_def)

lemma encodable_live: "encodable (PList (take 15 (concat (map (per_source net) urls))))"
proof -
  have "encodable a" if "a \<in> set (concat (map (per_source net) urls))" for a
    using that by (auto simp: per_source_def encodable_article_of)
  then have "encodable a" if "a \<in> set (take 15 (concat (map (per_source net) urls)))" for a
    using that in_set_takeD by fast
  then show ?thesis
    by (simp add: list_all_iff)
qed

lemma aggregate_eq:
  "aggregate net d =
     (case use_cache d (PList (take 15 (concat (map (per_source net) feeds)))) of
        Inl e \<Rightarrow> Inl e
      | Inr cached \<Rightarrow>
          if encodable (use_fallback cached)
          then Inr (use_fallback cached, d\<lparr>news_cache := Stored (use_fallback cached)\<rparr>)
          else Inl UnicodeEncodeError)"
  by (simp add: aggregate_def collect_eq Let_def split: sum.splits)

lemma per_source_Nil: "per_source net url = [] \<longleftrightarrow> fetched_entries net url = []"
  by (simp add: per_source_def)

lemma live_Nil:
  "take 15 (concat (map (per_source net) feeds)) = [] \<longleftrightarrow> live_empty net"
  by (simp add: live_empty_def list_all_iff per_source_Nil)

lemma live_empty_iff: "live_empty net \<longleftrightarrow> \<not> list_ex (\<lambda>url. fetched_entries net url \<noteq> []) feeds"
  by (simp add: live_empty_def list_all_iff list_ex_iff)

lemma aggregate_live_eq:
  assumes "\<not> live_empty net"
  shows "aggregate net d =
     Inr (PList (take 15 (concat (map (per_source net) feeds))),
          d\<lparr>news_cache := Stored (PList (take 15 (concat (map (per_source net) feeds))))\<rparr>)"
proof -
  define live where "live = take 15 (concat (map (per_source net) feeds))"
  have ne: "live \<noteq> []"
    unfolding live_def using assms live_Nil [of net] by blast
  have enc: "encodable (PList live)"
    unfolding live_def by (rule encodable_live)
  from ne enc show ?thesis
    unfolding aggregate_eq live_def [symmetric]
    by (simp add: use_cache_def use_fallback_def)
qed

lemma aggregate_empty_eq:
  assumes "live_empty net"
  shows "aggregate net d =
     (case news_cache d of
        Absent \<Rightarrow> Inr (PList [fallback_article], d\<lparr>news_cache := Stored (PList [fallback_article])\<rparr>)
      | Corrupt \<Rightarrow> Inl JSONDecodeError
      | Stored v \<Rightarrow>
          if encodable (use_fallback v)
          then Inr (use_fallback v, d\<lparr>news_cache := Stored (use_fallback v)\<rparr>)
          else Inl UnicodeEncodeError)"
proof -
  define live where "live = take 15 (concat (map (per_source net) feeds))"
  have "live = []"
    unfolding live_def using assms live_Nil [of net] by blast
  then show ?thesis
    unfolding aggregate_eq live_def [symmetric]
    using encodable_fallback
    by (simp add: use_cache_def use_fallback_def split: cache_file.splits)
qed

lemma truthy_use_fallback: "truthy (use_fallback v)"
  by (simp add: use_fallback_def)

lemma aggregate_returns:
  assumes "aggregate net d = Inr (articles, d')"
  shows "truthy articles" and "d' = d\<lparr>news_cache := Stored articles\<rparr>"
  using assms
  by (auto simp: aggregate_eq truthy_use_fallback split: sum.splits if_splits)

lemma aggregate_encodable:
  assumes "aggregate net d = Inr (articles, d')"
  shows "encodable articles"
  using assms
  by (auto simp: aggregate_eq split: sum.splits if_splits)

lemma all_fail_live_empty:
  "list_all (\<lambda>url. always_fails net url 3) feeds \<Longrightarrow> live_empty net"
  by (simp add: live_empty_def list_all_iff always_fails_fetched)

lemma disk_update_same: "d\<lparr>news_cache := news_cache d\<rparr> = d"
  by simp

lemma aggregate_cached_eq:
  assumes "live_empty net" and "news_cache d = Stored batch" and "truthy batch"
    and "encodable batch"
  shows "aggregate net d = Inr (batch, d)"
proof -
  have "d\<lparr>news_cache := Stored batch\<rparr> = d"
    using assms(2) disk_update_same [of d] by simp
  then show ?thesis
    using assms by (simp add: aggregate_empty_eq use_fallback_def)
qed

section \<open>The scenarios\<close>

lemma fetched_entries_first:
  "requests_get net url 0 = Response 200 content \<Longrightarrow>
   feedparser_parse net content = Parsed feed \<Longrightarrow>
   fetched_entries net url = entries feed"
  by (simp add: fetched_entries_def fetch_feed_default try_get_def)

lemma fetched_entries_errors:
  "requests_get net url 0 = RequestError \<Longrightarrow> requests_get net url 1 = RequestError \<Longrightarrow>
   requests_get net url 2 = RequestError \<Longrightarrow> fetched_entries net url = []"
  by (simp add: fetched_entries_def fetch_feed_default try_get_def)

lemma feeds_first: "''https://www.standardmedia.co.ke/kenya/rss.xml'' \<in> set feeds"
  by (simp add: feeds_def)

lemma feeds_second: "''https://rss.nation.africa/rss.xml'' \<in> set feeds"
  by (simp add: feeds_def)

lemma feeds_fourth: "''https://www.kbc.co.ke/feed/'' \<in> set feeds"
  by (simp add: feeds_def)

lemma net_down_fails: "always_fails net_down url 3"
  by (simp add: always_fails_def list_all_iff attempt_fails_def net_down_def)

lemma net_down_all_fail: "list_all (\<lambda>url. always_fails net_down url 3) feeds"
  by (simp add: list_all_iff net_down_fails)

lemma net_down_live_empty: "live_empty net_down"
  by (rule all_fail_live_empty [OF net_down_all_fail])

lemma net_down_aggregate_absent:
  "aggregate net_down \<lparr>news_cache = Absent\<rparr> =
     Inr (PList [fallback_article], \<lparr>news_cache = Stored (PList [fallback_article])\<rparr>)"
  using aggregate_empty_eq [OF net_down_live_empty, of "\<lparr>news_cache = Absent\<rparr>"] by simp

lemma net_down_aggregate_corrupt:
  "aggregate net_down \<lparr>news_cache = Corrupt\<rparr> = Inl JSONDecodeError"
  using aggregate_empty_eq [OF net_down_live_empty, of "\<lparr>news_cache = Corrupt\<rparr>"] by simp

lemma net_partial_first:
  "fetched_entries net_partial ''https://www.standardmedia.co.ke/kenya/rss.xml'' = replicate 3 entry_a"
  by (subst fetched_entries_first [where content = "''A''" and feed = "\<lparr>entries = replicate 3 entry_a\<rparr>"])
    (simp_all add: net_partial_def)

lemma net_partial_entries:
  "map (fetched_entries net_partial) feeds =
     [replicate 3 entry_a, [], replicate 20 entry_c, [], [], [], [], []]"
proof -
  have c: "fetched_entries net_partial ''https://www.theeastafrican.co.ke/rss.xml'' =
      replicate 20 entry_c"
    by (subst fetched_entries_first [where content = "''C''" and feed = "\<lparr>entries = replicate 20 entry_c\<rparr>"])
      (simp_all add: net_partial_def)
  have r: "fetched_entries net_partial ''https://rss.nation.africa/rss.xml'' = []"
    "fetched_entries net_partial ''https://www.kbc.co.ke/feed/'' = []"
    "fetched_entries net_partial ''https://www.msn.com/en-xl/feeds/news'' = []"
    "fetched_entries net_partial ''https://allafrica.com/tools/headlines/rdf/kenya/headlines.rdf'' = []"
    "fetched_entries net_partial ''https://www.bbc.co.uk/feeds/rss/africa.xml'' = []"
    "fetched_entries net_partial ''https://www.aljazeera.com/xml/rss/all.xml'' = []"
    by (rule fetched_entries_errors; simp add: net_partial_def)+
  show ?thesis
    by (simp only: feeds_def list.map net_partial_first c r)
qed

lemma net_partial_batch:
  "take 15 (concat (map (per_source net_partial) feeds)) =
      replicate 3 (article_of entry_a) @ replicate 5 (article_of entry_c)"
proof -
  have "map (per_source net_partial) feeds =
      map (\<lambda>es. map article_of (take 5 es)) (map (fetched_entries net_partial) feeds)"
    by (simp add: per_source_def)
  then show ?thesis
    unfolding net_partial_entries by simp
qed

lemma net_partial_live: "\<not> live_empty net_partial"
  unfolding live_empty_def list_all_iff
  using feeds_first net_partial_first by fastforce

lemma net_partial_aggregate:
  "aggregate net_partial d =
     Inr (PList (replicate 3 (article_of entry_a) @ replicate 5 (article_of entry_c)),
          d\<lparr>news_cache := Stored (PList (replicate 3 (article_of entry_a) @ replicate 5 (article_of entry_c)))\<rparr>)"
  using aggregate_live_eq [OF net_partial_live, of d]
  unfolding net_partial_batch .

section \<open>The analysis loop\<close>

lemma is_article_getitem:
  "is_article art \<Longrightarrow> getitem art ''title'' = Inr (field art ''title'') \<and>
     getitem art ''summary'' = Inr (field art ''summary'') \<and>
     getitem art ''link'' = Inr (field art ''link'')"
  by (cases art) (auto simp: field_def)

lemma analyse_article:
  assumes "is_article art"
  shows "analyse ai i (art # arts) acc = analyse ai (Suc i) arts (acc @ [analysis_of ai i art])"
  using is_article_getitem [OF assms]
  by (simp add: analysis_of_def prompt_of_def)

lemma analyse_eq:
  "list_all is_article arts \<Longrightarrow>
   analyse ai i arts acc = Inr (acc @ map (\<lambda>k. analysis_of ai (i + k) (arts ! k)) [0..<length arts])"
proof (induction arts arbitrary: i acc)
  case Nil
  then show ?case by simp
next
  case (Cons art arts)
  then have a: "is_article art" and r: "list_all is_article arts"
    by simp_all
  have "map (\<lambda>k. analysis_of ai (i + k) ((art # arts) ! k)) [0..<length (art # arts)] =
      analysis_of ai i art # map (\<lambda>k. analysis_of ai (Suc i + k) (arts ! k)) [0..<length arts]"
    by (simp add: upt_conv_Cons map_Suc_upt [symmetric] del: upt_Suc)
  then show ?case
    unfolding analyse_article [OF a] Cons.IH [OF r] by simp
qed

lemma analyse_length:
  "analyse ai i arts acc = Inr res \<Longrightarrow> length res = length acc + length arts"
proof (induction arts arbitrary: i acc)
  case Nil
  then show ?case by simp
next
  case (Cons art arts)
  from Cons.prems show ?case
    by (auto split: sum.splits dest!: Cons.IH)
qed

lemma iterate_truthy:
  "iterate articles = Inr arts \<Longrightarrow> truthy articles \<Longrightarrow> arts \<noteq> []"
  by (cases articles) auto

lemma populated_article_of: "populated (article_of e)"
  by (simp add: article_of_def)

lemma populated_is_article: "populated a \<Longrightarrow> is_article a"
  by (induction a rule: populated.induct) simp_all



lemma analyze_well_formed:
  assumes "aggregate net d = Inr (PList arts, d')" and "list_all is_article arts"
  shows "analyze_government_news net ai now d =
     Inr (\<lparr>status = ''success'', timestamp = now,
           analyses = map (\<lambda>k. analysis_of ai k (arts ! k)) [0..<length arts]\<rparr>, d')"
  using assms by (simp add: analyze_government_news_def analyse_eq)

lemma is_article_fallback: "is_article fallback_article"
  by (simp add: fallback_article_def)

section \<open>Further facts on the scenarios\<close>

lemma article_of_explicit:
  "article_of =
     (\<lambda>e. PDict [(''title'', PStr (case e ''title'' of None \<Rightarrow> ''Untitled'' | Some t \<Rightarrow> t)),
                 (''link'', PStr (case e ''link'' of None \<Rightarrow> ''No link'' | Some l \<Rightarrow> l)),
                 (''summary'', PStr (case e ''summary'' of
                     Some s \<Rightarrow> s
                   | None \<Rightarrow> (case e ''description'' of
                                Some x \<Rightarrow> x
                              | None \<Rightarrow> ''No summary available.'')))])"
  by (rule ext) (simp add: article_of_def get_or_def split: option.splits)

lemma net_ordered_first:
  "fetched_entries net_ordered ''https://www.standardmedia.co.ke/kenya/rss.xml'' =
     map titled [''A1'', ''A2'', ''A3'']"
  by (subst fetched_entries_first [where content = "''A''"
        and feed = "\<lparr>entries = map titled [''A1'', ''A2'', ''A3'']\<rparr>"])
    (simp_all add: net_ordered_def)

lemma net_ordered_third:
  "fetched_entries net_ordered ''https://www.theeastafrican.co.ke/rss.xml'' =
     map titled
       [''C01'', ''C02'', ''C03'', ''C04'', ''C05'', ''C06'', ''C07'', ''C08'', ''C09'', ''C10'',
        ''C11'', ''C12'', ''C13'', ''C14'', ''C15'', ''C16'', ''C17'', ''C18'', ''C19'', ''C20'']"
  by (subst fetched_entries_first [where content = "''C''"
        and feed = "\<lparr>entries = map titled
       [''C01'', ''C02'', ''C03'', ''C04'', ''C05'', ''C06'', ''C07'', ''C08'', ''C09'', ''C10'',
        ''C11'', ''C12'', ''C13'', ''C14'', ''C15'', ''C16'', ''C17'', ''C18'', ''C19'', ''C20'']\<rparr>"])
    (simp_all add: net_ordered_def)

lemma net_ordered_fourth_fails: "always_fails net_ordered ''https://www.kbc.co.ke/feed/'' 3"
  by (simp add: always_fails_def list_all_iff attempt_fails_def net_ordered_def)

lemma net_ordered_second_fails: "always_fails net_ordered ''https://rss.nation.africa/rss.xml'' 3"
  by (simp add: always_fails_def list_all_iff attempt_fails_def net_ordered_def)

lemma feeds_fifth: "''https://www.msn.com/en-xl/feeds/news'' \<in> set feeds"
  by (simp add: feeds_def)

lemma net_ordered_fifth_first_fails:
  "always_fails net_ordered ''https://www.msn.com/en-xl/feeds/news'' 1"
  by (simp add: always_fails_def attempt_fails_def net_ordered_def)

lemma net_ordered_fifth_second:
  "requests_get net_ordered ''https://www.msn.com/en-xl/feeds/news'' 1 = Response 200 ''G''"
  "feedparser_parse net_ordered ''G'' = Parsed \<lparr>entries = [titled ''G1'']\<rparr>"
  by (simp_all add: net_ordered_def)

lemma net_ordered_fifth:
  "fetched_entries net_ordered ''https://www.msn.com/en-xl/feeds/news'' = [titled ''G1'']"
  using first_ok_fetched [OF _ net_ordered_fifth_first_fails net_ordered_fifth_second]
  by simp

lemma net_ordered_entries:
  "map (fetched_entries net_ordered) feeds =
     [map titled [''A1'', ''A2'', ''A3''], [],
      map titled
       [''C01'', ''C02'', ''C03'', ''C04'', ''C05'', ''C06'', ''C07'', ''C08'', ''C09'', ''C10'',
        ''C11'', ''C12'', ''C13'', ''C14'', ''C15'', ''C16'', ''C17'', ''C18'', ''C19'', ''C20''],
      [], [titled ''G1''], [], [], []]"
proof -
  have r: "fetched_entries net_ordered ''https://rss.nation.africa/rss.xml'' = []"
    "fetched_entries net_ordered ''https://allafrica.com/tools/headlines/rdf/kenya/headlines.rdf'' = []"
    "fetched_entries net_ordered ''https://www.bbc.co.uk/feeds/rss/africa.xml'' = []"
    "fetched_entries net_ordered ''https://www.aljazeera.com/xml/rss/all.xml'' = []"
    by (rule fetched_entries_errors; simp add: net_ordered_def)+
  have k: "fetched_entries net_ordered ''https://www.kbc.co.ke/feed/'' = []"
    by (rule always_fails_fetched [OF net_ordered_fourth_fails])
  show ?thesis
    by (simp only: feeds_def list.map net_ordered_first net_ordered_third net_ordered_fifth r k)
qed

lemma article_of_titled: "article_of (titled t) = plain_article t"
  by (simp add: article_of_def get_or_def titled_def plain_article_def)

lemma net_ordered_batch:
  "take 15 (concat (map (\<lambda>url. map article_of (take 5 (fetched_entries net_ordered url))) feeds)) =
     map plain_article [''A1'', ''A2'', ''A3'', ''C01'', ''C02'', ''C03'', ''C04'', ''C05'', ''G1'']"
proof -
  have "map (\<lambda>url. map article_of (take 5 (fetched_entries net_ordered url))) feeds =
      map (\<lambda>es. map article_of (take 5 es)) (map (fetched_entries net_ordered) feeds)"
    by simp
  then show ?thesis
    unfolding net_ordered_entries by (simp add: article_of_titled)
qed


lemma net_down_aggregate_stored:
  "truthy v \<Longrightarrow> encodable v \<Longrightarrow>
   aggregate net_down \<lparr>news_cache = Stored v\<rparr> = Inr (v, \<lparr>news_cache = Stored v\<rparr>)"
  by (rule aggregate_cached_eq [OF net_down_live_empty]) simp_all


section \<open>Claims\<close>

text \<open>
  C1. When at least one source yields entries, the aggregation returns the batch made of
  the articles of the first at most five entries of each source, in the order of the
  source list and then of the entries, cut to fifteen; it writes that batch to the cache.
  The article of an entry is the dictionary of its title, link and summary with their
  defaults. The length of the batch is the minimum of 15 and the sum over the sources of
  the minimum of 5 and the number of entries the source yields. A source yields the
  entries of the feed parsed from the first of its three requests that is answered with
  status 200 and content the parser accepts; a source whose three attempts all fail (the
  request raises, the status is not 200, or the parser raises) yields no entries, and
  the other sources are still read.
\<close>

theorem aggregate_live_batch:
  assumes "list_ex (\<lambda>url. fetched_entries net url \<noteq> []) feeds"
  shows "(\<exists>batch. aggregate net d = Inr (PList batch, d\<lparr>news_cache := Stored (PList batch)\<rparr>) \<and>
           batch = take 15 (concat (map (\<lambda>url.
               map (\<lambda>e. PDict
                     [(''title'', PStr (case e ''title'' of None \<Rightarrow> ''Untitled'' | Some t \<Rightarrow> t)),
                      (''link'', PStr (case e ''link'' of None \<Rightarrow> ''No link'' | Some l \<Rightarrow> l)),
                      (''summary'', PStr (case e ''summary'' of
                          Some s \<Rightarrow> s
                        | None \<Rightarrow> (case e ''description'' of
                                     Some x \<Rightarrow> x
                                   | None \<Rightarrow> ''No summary available.'')))])
                 (take 5 (fetched_entries net url))) feeds)) \<and>
           length batch = min 15 (sum_list (map (\<lambda>url. min 5 (length (fetched_entries net url))) feeds))) \<and>
         list_all (\<lambda>url. always_fails net url 3 \<longrightarrow> fetched_entries net url = []) feeds \<and>
         (k < 3 \<and> always_fails net url k \<and> requests_get net url k = Response 200 content \<and>
            feedparser_parse net content = Parsed feed \<longrightarrow>
            fetched_entries net url = entries feed)"
proof -
  have ne: "\<not> live_empty net"
    using assms by (simp add: live_empty_iff)
  have ps: "per_source net = (\<lambda>url. map article_of (take 5 (fetched_entries net url)))"
    by (rule ext) (simp add: per_source_def)
  have len: "length (take 15 (concat (map (per_source net) feeds))) =
      min 15 (sum_list (map (\<lambda>url. min 5 (length (fetched_entries net url))) feeds))"
    by (simp add: length_concat_per_source min.commute)
  have fails: "list_all (\<lambda>url. always_fails net url 3 \<longrightarrow> fetched_entries net url = []) feeds"
    by (simp add: list_all_iff always_fails_fetched)
  have ok: "k < 3 \<and> always_fails net url k \<and> requests_get net url k = Response 200 content \<and>
      feedparser_parse net content = Parsed feed \<longrightarrow> fetched_entries net url = entries feed"
    using first_ok_fetched [of k net url content feed] by blast
  show ?thesis
    using aggregate_live_eq [OF ne, of d] len fails ok
    unfolding ps article_of_explicit by blast
qed

theorem aggregate_live_batch_witness:
  "list_ex (\<lambda>url. fetched_entries net_ordered url \<noteq> []) feeds \<and>
   aggregate net_ordered \<lparr>news_cache = Absent\<rparr> =
     Inr (PList (map plain_article [''A1'', ''A2'', ''A3'', ''C01'', ''C02'', ''C03'', ''C04'', ''C05'', ''G1'']),
          \<lparr>news_cache = Stored (PList (map plain_article
              [''A1'', ''A2'', ''A3'', ''C01'', ''C02'', ''C03'', ''C04'', ''C05'', ''G1'']))\<rparr>) \<and>
   length (map plain_article [''A1'', ''A2'', ''A3'', ''C01'', ''C02'', ''C03'', ''C04'', ''C05'', ''G1'']) = 9 \<and>
   always_fails net_ordered ''https://rss.nation.africa/rss.xml'' 3 \<and>
   fetched_entries net_ordered ''https://rss.nation.africa/rss.xml'' = [] \<and>
   requests_get net_ordered ''https://www.kbc.co.ke/feed/'' 0 = Response 200 ''<bad'' \<and>
   feedparser_parse net_ordered ''<bad'' = ParseRaises \<and>
   always_fails net_ordered ''https://www.kbc.co.ke/feed/'' 3 \<and>
   fetched_entries net_ordered ''https://www.kbc.co.ke/feed/'' = [] \<and>
   (1::nat) < 3 \<and> always_fails net_ordered ''https://www.msn.com/en-xl/feeds/news'' 1 \<and>
   requests_get net_ordered ''https://www.msn.com/en-xl/feeds/news'' 0 = Response 200 ''<bad'' \<and>
   requests_get net_ordered ''https://www.msn.com/en-xl/feeds/news'' 1 = Response 200 ''G'' \<and>
   feedparser_parse net_ordered ''G'' = Parsed \<lparr>entries = [titled ''G1'']\<rparr> \<and>
   fetched_entries net_ordered ''https://www.msn.com/en-xl/feeds/news'' = [titled ''G1'']"
proof -
  have ex: "list_ex (\<lambda>url. fetched_entries net_ordered url \<noteq> []) feeds"
    unfolding list_ex_iff
    by (rule bexI [OF _ feeds_first]) (simp add: net_ordered_first)
  note inst = aggregate_live_batch [OF ex, of "\<lparr>news_cache = Absent\<rparr>" 1
      "''https://www.msn.com/en-xl/feeds/news''" "''G''" "\<lparr>entries = [titled ''G1'']\<rparr>"]
  from inst obtain b where
    1: "aggregate net_ordered \<lparr>news_cache = Absent\<rparr> =
          Inr (PList b, \<lparr>news_cache = Absent\<rparr>\<lparr>news_cache := Stored (PList b)\<rparr>)" and
    2: "b = take 15 (concat (map (\<lambda>url.
               map (\<lambda>e. PDict
                     [(''title'', PStr (case e ''title'' of None \<Rightarrow> ''Untitled'' | Some t \<Rightarrow> t)),
                      (''link'', PStr (case e ''link'' of None \<Rightarrow> ''No link'' | Some l \<Rightarrow> l)),
                      (''summary'', PStr (case e ''summary'' of
                          Some s \<Rightarrow> s
                        | None \<Rightarrow> (case e ''description'' of
                                     Some x \<Rightarrow> x
                                   | None \<Rightarrow> ''No summary available.'')))])
                 (take 5 (fetched_entries net_ordered url))) feeds))"
    by blast
  have b: "b = map plain_article [''A1'', ''A2'', ''A3'', ''C01'', ''C02'', ''C03'', ''C04'', ''C05'', ''G1'']"
    using 2 unfolding article_of_explicit [symmetric] by (simp only: net_ordered_batch)
  have agg: "aggregate net_ordered \<lparr>news_cache = Absent\<rparr> =
     Inr (PList (map plain_article [''A1'', ''A2'', ''A3'', ''C01'', ''C02'', ''C03'', ''C04'', ''C05'', ''G1'']),
          \<lparr>news_cache = Stored (PList (map plain_article
              [''A1'', ''A2'', ''A3'', ''C01'', ''C02'', ''C03'', ''C04'', ''C05'', ''G1'']))\<rparr>)"
    using 1 unfolding b by simp
  have all: "\<forall>url\<in>set feeds. always_fails net_ordered url 3 \<longrightarrow> fetched_entries net_ordered url = []"
    using inst [THEN conjunct2, THEN conjunct1] unfolding list_all_iff .
  have none2: "fetched_entries net_ordered ''https://rss.nation.africa/rss.xml'' = []"
    using all feeds_second net_ordered_second_fails by blast
  have none4: "fetched_entries net_ordered ''https://www.kbc.co.ke/feed/'' = []"
    using all feeds_fourth net_ordered_fourth_fails by blast
  have q: "requests_get net_ordered ''https://www.kbc.co.ke/feed/'' 0 = Response 200 ''<bad''"
    and p: "feedparser_parse net_ordered ''<bad'' = ParseRaises"
    and q0: "requests_get net_ordered ''https://www.msn.com/en-xl/feeds/news'' 0 = Response 200 ''<bad''"
    by (simp_all add: net_ordered_def)
  have fifth: "fetched_entries net_ordered ''https://www.msn.com/en-xl/feeds/news'' = [titled ''G1'']"
    using inst [THEN conjunct2, THEN conjunct2] net_ordered_fifth_first_fails
      net_ordered_fifth_second by simp
  show ?thesis
    by (intro conjI ex agg net_ordered_second_fails none2 q p net_ordered_fourth_fails none4
        net_ordered_fifth_first_fails q0 net_ordered_fifth_second fifth) simp_all
qed

text \<open>
  C2. When no source yields an entry (in particular when all three attempts of every
  source fail) and the cache file does not exist, the aggregation returns the batch of
  exactly one article, the fixed placeholder with its title and link. Whenever the
  aggregation returns, the value handed to the analysis is not empty. It is a non-empty
  list where the cache file holds an array or does not hold a JSON value, and the file
  the aggregation leaves behind then holds an array again. A cache file that holds
  another JSON value, such as a number, is handed on as it is.
\<close>

theorem aggregate_placeholder:
  "(list_all (\<lambda>url. always_fails net url 3) feeds \<longrightarrow> live_empty net) \<and>
   (live_empty net \<and> news_cache d = Absent \<longrightarrow>
      aggregate net d =
        Inr (PList [fallback_article], d\<lparr>news_cache := Stored (PList [fallback_article])\<rparr>)) \<and>
   getitem fallback_article ''title'' =
     Inr (PStr ''Government launches new affordable housing project'') \<and>
   getitem fallback_article ''link'' = Inr (PStr ''https://example.com/fallback'') \<and>
   (aggregate net d = Inr (articles, d') \<longrightarrow>
      truthy articles \<and>
      (holds_array (news_cache d) \<longrightarrow>
         (\<exists>xs. articles = PList xs \<and> xs \<noteq> []) \<and> holds_array (news_cache d')))"
proof (intro conjI impI)
  assume "list_all (\<lambda>url. always_fails net url 3) feeds"
  then show "live_empty net" by (rule all_fail_live_empty)
next
  assume "live_empty net \<and> news_cache d = Absent"
  then show "aggregate net d =
      Inr (PList [fallback_article], d\<lparr>news_cache := Stored (PList [fallback_article])\<rparr>)"
    by (simp add: aggregate_empty_eq)
next
  show "getitem fallback_article ''title'' =
      Inr (PStr ''Government launches new affordable housing project'')"
    by (simp add: fallback_article_def)
  show "getitem fallback_article ''link'' = Inr (PStr ''https://example.com/fallback'')"
    by (simp add: fallback_article_def)
next
  assume r: "aggregate net d = Inr (articles, d')"
  then show t: "truthy articles" by (rule aggregate_returns)
  assume h: "holds_array (news_cache d)"
  show l: "\<exists>xs. articles = PList xs \<and> xs \<noteq> []"
  proof (cases "live_empty net")
    case False
    from aggregate_live_eq [OF False, of d] r t show ?thesis by auto
  next
    case True
    from aggregate_empty_eq [OF True, of d] r h t show ?thesis
      by (cases "news_cache d" rule: holds_array.cases)
        (auto simp: use_fallback_def split: if_splits)
  qed
  have "news_cache d' = Stored articles"
    using aggregate_returns(2) [OF r] by simp
  with l show "holds_array (news_cache d')" by auto
qed

theorem aggregate_placeholder_witness:
  "list_all (\<lambda>url. always_fails net_down url 3) feeds \<and> live_empty net_down \<and>
   news_cache \<lparr>news_cache = Absent\<rparr> = Absent \<and>
   aggregate net_down \<lparr>news_cache = Absent\<rparr> =
     Inr (PList [fallback_article], \<lparr>news_cache = Stored (PList [fallback_article])\<rparr>) \<and>
   truthy (PList [fallback_article]) \<and> holds_array (news_cache \<lparr>news_cache = Absent\<rparr>)"
proof -
  note inst = aggregate_placeholder [of net_down "\<lparr>news_cache = Absent\<rparr>"
      "PList [fallback_article]" "\<lparr>news_cache = Stored (PList [fallback_article])\<rparr>"]
  have le: "live_empty net_down"
    using inst [THEN conjunct1] net_down_all_fail by (rule mp)
  have agg: "aggregate net_down \<lparr>news_cache = Absent\<rparr> =
     Inr (PList [fallback_article], \<lparr>news_cache = Stored (PList [fallback_article])\<rparr>)"
    using inst [THEN conjunct2, THEN conjunct1] le by simp
  have tr: "truthy (PList [fallback_article])"
    using inst [THEN conjunct2, THEN conjunct2, THEN conjunct2, THEN conjunct2] agg by blast
  show ?thesis
    by (intro conjI net_down_all_fail le agg tr) simp_all
qed

theorem aggregate_placeholder_counterexample:
  "aggregate net_down \<lparr>news_cache = Stored (PInt 5)\<rparr> =
     Inr (PInt 5, \<lparr>news_cache = Stored (PInt 5)\<rparr>) \<and>
   iterate (PInt 5) = Inl TypeError"
  using net_down_aggregate_stored [of "PInt 5"] by simp

text \<open>
  C3. The read of the cache file is guarded only by the test that the file exists. With
  every source unreachable and a cache file that \<open>json.load\<close> cannot decode, the
  exception of \<open>json.load\<close> leaves \<open>analyze_government_news\<close>: no placeholder is
  substituted.
\<close>

theorem analyze_corrupt_cache_raises:
  "analyze_government_news net_down ai now \<lparr>news_cache = Corrupt\<rparr> = Inl JSONDecodeError"
  by (simp add: analyze_government_news_def net_down_aggregate_corrupt)

text \<open>
  C4. When no source yields an entry and the cache file holds a non-empty batch that can
  be written back (no string in it holds a lone surrogate), the aggregation returns
  exactly that batch, and the disk is as before: the file is rewritten with the same
  content. On a stored batch with a string that UTF-8 cannot encode, the write of the
  batch raises instead.
\<close>

theorem aggregate_cached:
  assumes "live_empty net" and "news_cache d = Stored batch" and "truthy batch"
    and "encodable batch"
  shows "aggregate net d = Inr (batch, d)"
  using assms by (rule aggregate_cached_eq)

theorem aggregate_cached_witness:
  "live_empty net_down \<and> news_cache \<lparr>news_cache = Stored four_articles\<rparr> = Stored four_articles \<and>
   truthy four_articles \<and> encodable four_articles \<and>
   aggregate net_down \<lparr>news_cache = Stored four_articles\<rparr> =
     Inr (four_articles, \<lparr>news_cache = Stored four_articles\<rparr>)"
proof -
  have t: "truthy four_articles"
    by (simp add: four_articles_def)
  have e: "encodable four_articles"
    by (simp add: four_articles_def encodable_article_of)
  have c: "news_cache \<lparr>news_cache = Stored four_articles\<rparr> = Stored four_articles"
    by simp
  show ?thesis
    using aggregate_cached [OF net_down_live_empty c t e] net_down_live_empty t e by simp
qed

theorem aggregate_cached_counterexample:
  "live_empty net_down \<and> truthy surrogate_batch \<and>
   aggregate net_down \<lparr>news_cache = Stored surrogate_batch\<rparr> = Inl UnicodeEncodeError"
proof -
  have t: "truthy surrogate_batch"
    by (simp add: surrogate_batch_def)
  have "aggregate net_down \<lparr>news_cache = Stored surrogate_batch\<rparr> = Inl UnicodeEncodeError"
    using aggregate_empty_eq [OF net_down_live_empty, of "\<lparr>news_cache = Stored surrogate_batch\<rparr>"]
    by (simp add: use_fallback_def surrogate_batch_def)
  with t net_down_live_empty show ?thesis by simp
qed

text \<open>
  C5. After every aggregation that returns, the cache file holds exactly the batch
  returned, which is not empty, whatever the file held before: the write of lines 99 to
  100 replaces the whole record, for a live batch and for a batch taken from the cache
  alike.
\<close>

theorem aggregate_saves:
  assumes "aggregate net d = Inr (articles, d')"
  shows "truthy articles \<and> news_cache d' = Stored articles \<and>
         d' = d\<lparr>news_cache := Stored articles\<rparr>"
  using aggregate_returns [OF assms] by simp

theorem aggregate_saves_witness:
  "aggregate net_partial \<lparr>news_cache = Corrupt\<rparr> =
     Inr (PList (replicate 3 (article_of entry_a) @ replicate 5 (article_of entry_c)),
          \<lparr>news_cache = Stored (PList (replicate 3 (article_of entry_a) @ replicate 5 (article_of entry_c)))\<rparr>) \<and>
   truthy (PList (replicate 3 (article_of entry_a) @ replicate 5 (article_of entry_c))) \<and>
   aggregate net_down \<lparr>news_cache = Stored four_articles\<rparr> =
     Inr (four_articles, \<lparr>news_cache = Stored four_articles\<rparr>) \<and>
   news_cache \<lparr>news_cache = Stored four_articles\<rparr> = Stored four_articles"
proof -
  have live: "aggregate net_partial \<lparr>news_cache = Corrupt\<rparr> =
     Inr (PList (replicate 3 (article_of entry_a) @ replicate 5 (article_of entry_c)),
          \<lparr>news_cache = Stored (PList (replicate 3 (article_of entry_a) @ replicate 5 (article_of entry_c)))\<rparr>)"
    using net_partial_aggregate [of "\<lparr>news_cache = Corrupt\<rparr>"] by simp
  have cached: "aggregate net_down \<lparr>news_cache = Stored four_articles\<rparr> =
     Inr (four_articles, \<lparr>news_cache = Stored four_articles\<rparr>)"
    by (rule aggregate_cached_eq [OF net_down_live_empty])
      (simp_all add: four_articles_def encodable_article_of)
  show ?thesis
    using aggregate_saves [OF live] aggregate_saves [OF cached] live cached by simp
qed







text \<open>
  C8. A second aggregation on the same feed data, started on the disk the first one
  left, returns the same batch and leaves the same disk: the cache holds the batch once,
  nothing is accumulated.
\<close>

theorem aggregate_twice:
  assumes "aggregate net d = Inr (articles, d1)"
  shows "aggregate net d1 = Inr (articles, d1) \<and> news_cache d1 = Stored articles"
proof -
  have t: "truthy articles" and d1: "d1 = d\<lparr>news_cache := Stored articles\<rparr>"
    using aggregate_returns [OF assms] by simp_all
  have c: "news_cache d1 = Stored articles"
    by (simp add: d1)
  have "aggregate net d1 = Inr (articles, d1)"
  proof (cases "live_empty net")
    case True
    then show ?thesis by (rule aggregate_cached_eq [OF _ c t aggregate_encodable [OF assms]])
  next
    case False
    from aggregate_live_eq [OF False, of d] assms
    have a: "articles = PList (take 15 (concat (map (per_source net) feeds)))"
      by simp
    have "d1\<lparr>news_cache := Stored articles\<rparr> = d1"
      by (simp add: d1)
    with aggregate_live_eq [OF False, of d1] a show ?thesis by simp
  qed
  with c show ?thesis by simp
qed

theorem aggregate_twice_witness:
  "aggregate net_partial \<lparr>news_cache = Absent\<rparr> =
     Inr (PList (replicate 3 (article_of entry_a) @ replicate 5 (article_of entry_c)),
          \<lparr>news_cache = Stored (PList (replicate 3 (article_of entry_a) @ replicate 5 (article_of entry_c)))\<rparr>) \<and>
   aggregate net_partial
       \<lparr>news_cache = Stored (PList (replicate 3 (article_of entry_a) @ replicate 5 (article_of entry_c)))\<rparr> =
     Inr (PList (replicate 3 (article_of entry_a) @ replicate 5 (article_of entry_c)),
          \<lparr>news_cache = Stored (PList (replicate 3 (article_of entry_a) @ replicate 5 (article_of entry_c)))\<rparr>)"
proof -
  have first: "aggregate net_partial \<lparr>news_cache = Absent\<rparr> =
     Inr (PList (replicate 3 (article_of entry_a) @ replicate 5 (article_of entry_c)),
          \<lparr>news_cache = Stored (PList (replicate 3 (article_of entry_a) @ replicate 5 (article_of entry_c)))\<rparr>)"
    using net_partial_aggregate [of "\<lparr>news_cache = Absent\<rparr>"] by simp
  from aggregate_twice [OF first] first show ?thesis
    by (intro conjI) (rule first, erule conjunct1)
qed

text \<open>
  C9. For a batch whose articles all have a title, a summary and a link, the analysis loop
  returns one result per article, in the order of the batch, each with the title and the
  link of its article. When the call of the model for an article raises, the result of
  that article carries the error text made from the message, and the loop goes on: the
  whole function returns the status success with these results.
\<close>

theorem analyse_one_result_each:
  assumes "list_all is_article arts"
  shows "analyse ai 0 arts [] = Inr (map (\<lambda>k. analysis_of ai k (arts ! k)) [0..<length arts]) \<and>
         length (map (\<lambda>k. analysis_of ai k (arts ! k)) [0..<length arts]) = length arts \<and>
         (\<forall>k<length arts.
            getitem (arts ! k) ''title'' = Inr (title (analysis_of ai k (arts ! k))) \<and>
            getitem (arts ! k) ''link'' = Inr (source (analysis_of ai k (arts ! k))) \<and>
            analysis (analysis_of ai k (arts ! k)) = ai_text (ai k (prompt_of (arts ! k))) \<and>
            (\<forall>msg. ai k (prompt_of (arts ! k)) = Failure msg \<longrightarrow>
               analysis (analysis_of ai k (arts ! k)) =
                 warning_sign @ '' AI generation error: '' @ msg)) \<and>
         (aggregate net d = Inr (PList arts, d') \<longrightarrow>
            analyze_government_news net ai now d =
              Inr (\<lparr>status = ''success'', timestamp = now,
                    analyses = map (\<lambda>k. analysis_of ai k (arts ! k)) [0..<length arts]\<rparr>, d'))"
proof (intro conjI allI impI)
  show "analyse ai 0 arts [] = Inr (map (\<lambda>k. analysis_of ai k (arts ! k)) [0..<length arts])"
    using analyse_eq [OF assms, of ai 0 "[]"] by simp
  show "length (map (\<lambda>k. analysis_of ai k (arts ! k)) [0..<length arts]) = length arts"
    by simp
next
  fix k assume "k < length arts"
  then have a: "is_article (arts ! k)"
    using assms by (simp add: list_all_length)
  show "getitem (arts ! k) ''title'' = Inr (title (analysis_of ai k (arts ! k)))"
    using is_article_getitem [OF a] by (simp add: analysis_of_def)
  show "getitem (arts ! k) ''link'' = Inr (source (analysis_of ai k (arts ! k)))"
    using is_article_getitem [OF a] by (simp add: analysis_of_def)
  show "analysis (analysis_of ai k (arts ! k)) = ai_text (ai k (prompt_of (arts ! k)))"
    by (simp add: analysis_of_def)
  fix msg assume "ai k (prompt_of (arts ! k)) = Failure msg"
  then show "analysis (analysis_of ai k (arts ! k)) = warning_sign @ '' AI generation error: '' @ msg"
    by (simp add: analysis_of_def ai_text_def)
next
  assume "aggregate net d = Inr (PList arts, d')"
  then show "analyze_government_news net ai now d =
      Inr (\<lparr>status = ''success'', timestamp = now,
            analyses = map (\<lambda>k. analysis_of ai k (arts ! k)) [0..<length arts]\<rparr>, d')"
    using assms by (rule analyze_well_formed)
qed

theorem analyse_one_result_each_witness:
  "list_all is_article [article_of entry_a, article_of entry_c, article_of Map.empty] \<and>
   analyse ai_second_fails 0 [article_of entry_a, article_of entry_c, article_of Map.empty] [] =
     Inr [\<lparr>title = PStr ''A'', analysis = ''ok'', source = PStr ''https://a.example/1''\<rparr>,
          \<lparr>title = PStr ''Untitled'',
           analysis = warning_sign @ '' AI generation error: 503 UNAVAILABLE'',
           source = PStr ''https://c.example/1''\<rparr>,
          \<lparr>title = PStr ''Untitled'', analysis = ''ok'', source = PStr ''No link''\<rparr>] \<and>
   aggregate net_down \<lparr>news_cache = Absent\<rparr> =
     Inr (PList [fallback_article], \<lparr>news_cache = Stored (PList [fallback_article])\<rparr>) \<and>
   analyze_government_news net_down ai_second_fails ''2025-01-01T00:00:00'' \<lparr>news_cache = Absent\<rparr> =
     Inr (\<lparr>status = ''success'', timestamp = ''2025-01-01T00:00:00'',
           analyses = [\<lparr>title = PStr ''Government launches new affordable housing project'',
                        analysis = ''ok'',
                        source = PStr ''https://example.com/fallback''\<rparr>]\<rparr>,
          \<lparr>news_cache = Stored (PList [fallback_article])\<rparr>)"
proof -
  have wf: "list_all is_article [article_of entry_a, article_of entry_c, article_of Map.empty]"
    by (simp add: populated_is_article populated_article_of)
  have wf1: "list_all is_article [fallback_article]"
    by (simp add: is_article_fallback)
  have three: "[0..<length [article_of entry_a, article_of entry_c, article_of Map.empty]] = [0, 1, 2]"
    by (simp add: upt_rec)
  have one: "[0..<length [fallback_article]] = [0]"
    by simp
  have a0: "analysis_of ai_second_fails 0 (article_of entry_a) =
      \<lparr>title = PStr ''A'', analysis = ''ok'', source = PStr ''https://a.example/1''\<rparr>"
    by (simp add: analysis_of_def field_def article_of_def get_or_def entry_a_def
        ai_second_fails_def ai_text_def)
  have a1: "analysis_of ai_second_fails (Suc 0) (article_of entry_c) =
      \<lparr>title = PStr ''Untitled'',
       analysis = warning_sign @ '' AI generation error: 503 UNAVAILABLE'',
       source = PStr ''https://c.example/1''\<rparr>"
    by (simp add: analysis_of_def field_def article_of_def get_or_def entry_c_def
        ai_second_fails_def ai_text_def)
  have a2: "analysis_of ai_second_fails 2 (article_of Map.empty) =
      \<lparr>title = PStr ''Untitled'', analysis = ''ok'', source = PStr ''No link''\<rparr>"
    by (simp add: analysis_of_def field_def article_of_def get_or_def
        ai_second_fails_def ai_text_def)
  have f0: "analysis_of ai_second_fails 0 fallback_article =
      \<lparr>title = PStr ''Government launches new affordable housing project'',
       analysis = ''ok'', source = PStr ''https://example.com/fallback''\<rparr>"
    by (simp add: analysis_of_def field_def fallback_article_def ai_second_fails_def ai_text_def)
  have loop: "analyse ai_second_fails 0 [article_of entry_a, article_of entry_c, article_of Map.empty] [] =
     Inr [\<lparr>title = PStr ''A'', analysis = ''ok'', source = PStr ''https://a.example/1''\<rparr>,
          \<lparr>title = PStr ''Untitled'',
           analysis = warning_sign @ '' AI generation error: 503 UNAVAILABLE'',
           source = PStr ''https://c.example/1''\<rparr>,
          \<lparr>title = PStr ''Untitled'', analysis = ''ok'', source = PStr ''No link''\<rparr>]"
  proof -
    have "map (\<lambda>k. analysis_of ai_second_fails k
          ([article_of entry_a, article_of entry_c, article_of Map.empty] ! k))
        [0..<length [article_of entry_a, article_of entry_c, article_of Map.empty]] =
        [analysis_of ai_second_fails 0 (article_of entry_a),
         analysis_of ai_second_fails (Suc 0) (article_of entry_c),
         analysis_of ai_second_fails 2 (article_of Map.empty)]"
      unfolding three by simp
    then show ?thesis
      using analyse_one_result_each [OF wf, of ai_second_fails, THEN conjunct1]
      by (simp only: a0 a1 a2)
  qed
  have whole: "analyze_government_news net_down ai_second_fails ''2025-01-01T00:00:00''
       \<lparr>news_cache = Absent\<rparr> =
     Inr (\<lparr>status = ''success'', timestamp = ''2025-01-01T00:00:00'',
           analyses = [\<lparr>title = PStr ''Government launches new affordable housing project'',
                        analysis = ''ok'',
                        source = PStr ''https://example.com/fallback''\<rparr>]\<rparr>,
          \<lparr>news_cache = Stored (PList [fallback_article])\<rparr>)"
    using analyse_one_result_each [OF wf1, of ai_second_fails net_down "\<lparr>news_cache = Absent\<rparr>"
        "\<lparr>news_cache = Stored (PList [fallback_article])\<rparr>" "''2025-01-01T00:00:00''",
        THEN conjunct2, THEN conjunct2, THEN conjunct2, THEN mp, OF net_down_aggregate_absent]
    unfolding one by (simp only: list.map nth_Cons_0 f0)
  show ?thesis
    by (intro conjI wf loop net_down_aggregate_absent whole)
qed

text \<open>
  C10. Whenever \<open>analyze_government_news\<close> returns, the status of its result is
  "success", its list of analyses is not empty, and the timestamp is the current time,
  whatever the feeds, the cache and the model did.
\<close>

theorem analyze_reports_success:
  assumes "analyze_government_news net ai now d = Inr (r, d')"
  shows "status r = ''success'' \<and> analyses r \<noteq> [] \<and> timestamp r = now"
proof -
  from assms obtain articles arts res where
    agg: "aggregate net d = Inr (articles, d')" and
    it: "iterate articles = Inr arts" and
    an: "analyse ai 0 arts [] = Inr res" and
    r: "r = \<lparr>status = ''success'', timestamp = now, analyses = res\<rparr>"
    by (auto simp: analyze_government_news_def split: sum.splits prod.splits)
  have "truthy articles"
    using agg by (rule aggregate_returns)
  with it have "arts \<noteq> []"
    by (rule iterate_truthy)
  moreover have "length res = length arts"
    using analyse_length [OF an] by simp
  ultimately have "res \<noteq> []"
    by auto
  with r show ?thesis by simp
qed

theorem analyze_reports_success_witness:
  "analyze_government_news net_partial ai_second_fails ''2025-01-01T00:00:00'' \<lparr>news_cache = Corrupt\<rparr> =
     Inr (\<lparr>status = ''success'', timestamp = ''2025-01-01T00:00:00'',
           analyses = map (\<lambda>k. analysis_of ai_second_fails k
               ((replicate 3 (article_of entry_a) @ replicate 5 (article_of entry_c)) ! k)) [0..<8]\<rparr>,
          \<lparr>news_cache = Stored (PList (replicate 3 (article_of entry_a) @ replicate 5 (article_of entry_c)))\<rparr>) \<and>
   status \<lparr>status = ''success'', timestamp = ''2025-01-01T00:00:00'',
           analyses = map (\<lambda>k. analysis_of ai_second_fails k
               ((replicate 3 (article_of entry_a) @ replicate 5 (article_of entry_c)) ! k)) [0..<8]\<rparr> =
     ''success'' \<and>
   analyses \<lparr>status = ''success'', timestamp = ''2025-01-01T00:00:00'',
           analyses = map (\<lambda>k. analysis_of ai_second_fails k
               ((replicate 3 (article_of entry_a) @ replicate 5 (article_of entry_c)) ! k)) [0..<8]\<rparr> \<noteq> []"
proof -
  have agg: "aggregate net_partial \<lparr>news_cache = Corrupt\<rparr> =
     Inr (PList (replicate 3 (article_of entry_a) @ replicate 5 (article_of entry_c)),
          \<lparr>news_cache = Stored (PList (replicate 3 (article_of entry_a) @ replicate 5 (article_of entry_c)))\<rparr>)"
    using net_partial_aggregate [of "\<lparr>news_cache = Corrupt\<rparr>"] by simp
  have wf: "list_all is_article (replicate 3 (article_of entry_a) @ replicate 5 (article_of entry_c))"
    by (simp add: list_all_iff populated_is_article populated_article_of)
  have run: "analyze_government_news net_partial ai_second_fails ''2025-01-01T00:00:00'' \<lparr>news_cache = Corrupt\<rparr> =
     Inr (\<lparr>status = ''success'', timestamp = ''2025-01-01T00:00:00'',
           analyses = map (\<lambda>k. analysis_of ai_second_fails k
               ((replicate 3 (article_of entry_a) @ replicate 5 (article_of entry_c)) ! k)) [0..<8]\<rparr>,
          \<lparr>news_cache = Stored (PList (replicate 3 (article_of entry_a) @ replicate 5 (article_of entry_c)))\<rparr>)"
    using analyze_well_formed [OF agg wf, of ai_second_fails "''2025-01-01T00:00:00''"] by simp
  from analyze_reports_success [OF run] run show ?thesis
    by (intro conjI) (rule run, simp_all)
qed

end
